theory Spec2Isabelle
  imports Main "HOL-Library.Product_Lexorder"
begin

section \<open>Byte strings and the string helpers of the Go standard library\<close>

text \<open>
  A Go \<open>string\<close> or \<open>[]byte\<close> is a list of bytes; \<open>len\<close> is \<open>length\<close>.
  The helpers below follow the documented behaviour of \<open>strings.HasPrefix\<close>,
  \<open>strings.TrimPrefix\<close>, \<open>strings.Contains\<close>, \<open>strings.Cut\<close>,
  \<open>strings.Replace\<close> (with the count 1 that \<open>fixGo\<close> passes) and \<open>path.Base\<close>.
\<close>

definition dquote :: char where
  "dquote = CHR 0x22"

definition bquote :: char where
  "bquote = CHR 0x60"

definition HasPrefix :: "string \<Rightarrow> string \<Rightarrow> bool" where
  "HasPrefix s pre = (length pre \<le> length s \<and> take (length pre) s = pre)"

definition HasSuffix :: "string \<Rightarrow> string \<Rightarrow> bool" where
  "HasSuffix s suf = (length suf \<le> length s \<and> drop (length s - length suf) s = suf)"

definition TrimPrefix :: "string \<Rightarrow> string \<Rightarrow> string" where
  "TrimPrefix s pre = (if HasPrefix s pre then drop (length pre) s else s)"

text \<open>\<open>strings.Replace(s, old, new, 1)\<close>: the first occurrence of \<open>old\<close> in \<open>s\<close>,
  scanning from the left, is replaced; an empty \<open>old\<close> matches at the start.\<close>

fun Replace1 :: "string \<Rightarrow> string \<Rightarrow> string \<Rightarrow> string" where
  "Replace1 [] old new = (if old = [] then new else [])"
| "Replace1 (c # cs) old new =
     (if HasPrefix (c # cs) old then new @ drop (length old) (c # cs)
      else c # Replace1 cs old new)"

text \<open>\<open>strings.Contains(s, "@")\<close> and \<open>strings.Cut(s, "@")\<close> for a one-byte separator:
  \<open>Cut\<close> returns the text before the first separator, or all of \<open>s\<close> when there is none.\<close>

definition ContainsByte :: "string \<Rightarrow> char \<Rightarrow> bool" where
  "ContainsByte s c = (c \<in> set s)"

definition CutBefore :: "string \<Rightarrow> char \<Rightarrow> string" where
  "CutBefore s c = takeWhile (\<lambda>x. x \<noteq> c) s"

text \<open>\<open>path.Base\<close>: trailing slashes are stripped, then the text after the last slash is
  returned; the empty path gives \<open>.\<close> and a path of slashes only gives \<open>/\<close>.\<close>

definition path_Base :: "string \<Rightarrow> string" where
  "path_Base p =
     (if p = [] then ''.''
      else let stripped = rev (dropWhile (\<lambda>c. c = CHR ''/'') (rev p));
               last_elem = rev (takeWhile (\<lambda>c. c \<noteq> CHR ''/'') (rev stripped))
           in if last_elem = [] then ''/'' else last_elem)"

section \<open>The parsed file header\<close>

text \<open>
  \<open>fixGo\<close> reads three things of the \<open>*ast.File\<close> that \<open>parser.ParseFile\<close> returns in
  \<open>ImportsOnly\<close> mode: \<open>f.Name\<close> (an \<open>*ast.Ident\<close>), and for every entry of
  \<open>f.Imports\<close> its \<open>Name\<close> (an \<open>*ast.Ident\<close>, \<open>nil\<close> without an alias) and its \<open>Path\<close>
  (an \<open>*ast.BasicLit\<close>). Positions are kept as the byte offsets that the source's
  closure \<open>at\<close> computes from a \<open>token.Pos\<close>. As in \<open>go/ast\<close>, the end of an identifier
  or literal is its position plus the length of its text.
\<close>

record ident =
  NamePos :: nat
  Name :: string

record basic_lit =
  ValuePos :: nat
  Value :: string

record import_spec =
  spec_Name :: "ident option"
  spec_Path :: basic_lit

record ast_file =
  file_Name :: ident
  file_Imports :: "import_spec list"

definition ident_End :: "ident \<Rightarrow> nat" where
  "ident_End i = NamePos i + length (Name i)"

definition lit_End :: "basic_lit \<Rightarrow> nat" where
  "lit_End l = ValuePos l + length (Value l)"

text \<open>
  The functions of the Go distribution that \<open>fixGo\<close> calls and whose code is not part
  of this repository are parameters of the model: the parser (\<open>None\<close> is a parse error),
  \<open>strconv.Unquote\<close> (\<open>None\<close> is its error), \<open>strconv.Quote\<close> and
  \<open>token.IsIdentifier\<close>. Every theorem below holds for all of them.
\<close>

record golib =
  ParseFile :: "string \<Rightarrow> ast_file option"
  Unquote :: "string \<Rightarrow> string option"
  Quote :: "string \<Rightarrow> string"
  IsIdentifier :: "string \<Rightarrow> bool"

section \<open>The edit planner: \<open>fixGo\<close>\<close>

text \<open>
  The calls \<open>fixGo\<close> makes on its edit buffer, in the order it makes them:
  \<open>buf.Insert(pos, text)\<close> and \<open>buf.Replace(start, end, text)\<close>.
\<close>

datatype buf_call =
  Insert nat string
  | Replace nat nat string

datatype error =
  ParseError
  | InvalidPackageName string string
  | AddModuleStmtError
  | OverlapError
  | InvalidEdit

text \<open>The package clause (lines 209 to 219): only for a file at the module root, and
  only when the package is named after the old module or is its \<open>_test\<close> package. A new
  name that is not an identifier ends the program (\<open>log.Fatalf\<close>).\<close>

definition fix_package ::
  "golib \<Rightarrow> ast_file \<Rightarrow> string \<Rightarrow> string \<Rightarrow> bool \<Rightarrow> error + buf_call list" where
  "fix_package lib f srcMod dstMod isRoot =
     (let srcName = path_Base srcMod;
          dstName = path_Base dstMod;
          name = Name (file_Name f)
      in if isRoot \<and> (name = srcName \<or> name = srcName @ ''_test'') then
           (let dname = dstName @ TrimPrefix name srcName
            in if \<not> IsIdentifier lib dname then Inl (InvalidPackageName name dname)
               else Inr [Replace (NamePos (file_Name f)) (ident_End (file_Name f)) dname])
         else Inr [])"

text \<open>One iteration of the loop over \<open>f.Imports\<close> (lines 221 to 245). The two
  \<open>if\<close> statements on the path follow each other, as in the source.\<close>

definition fix_import :: "golib \<Rightarrow> string \<Rightarrow> string \<Rightarrow> import_spec \<Rightarrow> buf_call list" where
  "fix_import lib srcMod dstMod spec =
     (let srcName = path_Base srcMod;
          dstName = path_Base dstMod;
          lit = spec_Path spec
      in case Unquote lib (Value lit) of
           None \<Rightarrow> []
         | Some path \<Rightarrow>
             (if path = srcMod then
                (if srcName \<noteq> dstName \<and> spec_Name spec = None
                 then [Insert (ValuePos lit) (srcName @ '' '')] else [])
                @ [Replace (ValuePos lit) (lit_End lit) (Quote lib dstMod)]
              else [])
             @ (if HasPrefix path (srcMod @ ''/'')
                then [Replace (ValuePos lit) (lit_End lit)
                        (Quote lib (Replace1 path srcMod dstMod))]
                else []))"

text \<open>All buffer calls of \<open>fixGo\<close> on a parsed file, or the fatal error.\<close>

definition fixGo_calls ::
  "golib \<Rightarrow> ast_file \<Rightarrow> string \<Rightarrow> string \<Rightarrow> bool \<Rightarrow> error + buf_call list" where
  "fixGo_calls lib f srcMod dstMod isRoot =
     (case fix_package lib f srcMod dstMod isRoot of
        Inl e \<Rightarrow> Inl e
      | Inr cs \<Rightarrow> Inr (cs @ concat (map (fix_import lib srcMod dstMod) (file_Imports f))))"

section \<open>The patch buffer\<close>

text \<open>
  Modelled from the spec: the package \<open>internal/edit\<close> (\<open>NewBuffer\<close>, \<open>Insert\<close>,
  \<open>Replace\<close>, \<open>Bytes\<close>) is imported by \<open>cmd/init.go\<close> and is not among the sources.
  Following section 4.3 of the specification: an edit is a half-open range of the original
  bytes with its replacement text, an insertion is the empty range; \<open>Insert\<close> and
  \<open>Replace\<close> append to the edit list; materializing sorts the edits by start offset,
  insertions before replacements at the same start, keeping the order of calls otherwise,
  then walks the original bytes once, copying each gap and substituting each replacement.
  Overlapping edits abort the rewrite (\<open>OverlapError\<close>). The specification leaves open
  what happens to an edit that is no range of the original bytes; the model aborts there
  too (\<open>InvalidEdit\<close>), and no theorem below depends on that case.
\<close>

text \<open>Modelled from the spec: the edit of \<open>internal/edit\<close>, a half-open range
  \<open>[start, end)\<close> of the original bytes and the text to put in its place (section 3).\<close>

record edit =
  e_start :: nat
  e_end :: nat
  e_new :: string

text \<open>Modelled from the spec: the buffer of \<open>internal/edit\<close>, the original bytes and
  the edit list (section 4.3).\<close>

record buffer =
  b_old :: string
  b_q :: "edit list"

text \<open>Modelled from the spec: \<open>edit.NewBuffer\<close>, a buffer on the original bytes without
  edits.\<close>

definition NewBuffer :: "string \<Rightarrow> buffer" where
  "NewBuffer data = \<lparr>b_old = data, b_q = []\<rparr>"

text \<open>Modelled from the spec: \<open>(*Buffer).Insert\<close> and \<open>(*Buffer).Replace\<close> of
  \<open>internal/edit\<close>, which append an edit to the list; an insertion is the empty range.\<close>

definition Buffer_Insert :: "buffer \<Rightarrow> nat \<Rightarrow> string \<Rightarrow> buffer" where
  "Buffer_Insert b pos new = b\<lparr>b_q := b_q b @ [\<lparr>e_start = pos, e_end = pos, e_new = new\<rparr>]\<rparr>"

definition Buffer_Replace :: "buffer \<Rightarrow> nat \<Rightarrow> nat \<Rightarrow> string \<Rightarrow> buffer" where
  "Buffer_Replace b start fin new =
     b\<lparr>b_q := b_q b @ [\<lparr>e_start = start, e_end = fin, e_new = new\<rparr>]\<rparr>"

text \<open>A call of \<open>fixGo\<close> applied to the buffer.\<close>

fun run_call :: "buffer \<Rightarrow> buf_call \<Rightarrow> buffer" where
  "run_call b (Insert pos new) = Buffer_Insert b pos new"
| "run_call b (Replace start fin new) = Buffer_Replace b start fin new"

text \<open>Modelled from the spec: the sort key of materializing in \<open>internal/edit\<close>, the
  start offset, then insertions before replacements.\<close>

definition edit_key :: "edit \<Rightarrow> nat \<times> nat" where
  "edit_key e = (e_start e, if e_start e = e_end e then 0 else 1)"

text \<open>Modelled from the spec: the single walk over the original bytes in
  \<open>internal/edit\<close>, from \<open>offset\<close> on, over the sorted edits.\<close>

fun materialize :: "string \<Rightarrow> nat \<Rightarrow> edit list \<Rightarrow> error + string" where
  "materialize orig offset [] = Inr (drop offset orig)"
| "materialize orig offset (e # es) =
     (if e_start e < offset then Inl OverlapError
      else if e_end e < e_start e \<or> length orig < e_end e then Inl InvalidEdit
      else case materialize orig (e_end e) es of
             Inl err \<Rightarrow> Inl err
           | Inr rest \<Rightarrow>
               Inr (take (e_start e - offset) (drop offset orig) @ e_new e @ rest))"

text \<open>Modelled from the spec: \<open>(*Buffer).Bytes\<close> of \<open>internal/edit\<close>, sorting with a
  stable sort and then walking.\<close>

definition Bytes :: "buffer \<Rightarrow> error + string" where
  "Bytes b = materialize (b_old b) 0 (sort_key edit_key (b_q b))"

section \<open>\<open>fixGo\<close> on the bytes of a file\<close>

text \<open>Lines 197 to 247: parse (a parse error is fatal), plan the edits on a fresh
  buffer, return the buffer's bytes.\<close>

definition fixGo :: "golib \<Rightarrow> string \<Rightarrow> string \<Rightarrow> string \<Rightarrow> bool \<Rightarrow> error + string" where
  "fixGo lib data srcMod dstMod isRoot =
     (case ParseFile lib data of
        None \<Rightarrow> Inl ParseError
      | Some f \<Rightarrow>
          (case fixGo_calls lib f srcMod dstMod isRoot of
             Inl e \<Rightarrow> Inl e
           | Inr cs \<Rightarrow> Bytes (foldl run_call (NewBuffer data) cs)))"

section \<open>Header spans as the parser reports them\<close>

text \<open>
  What \<open>go/parser\<close> guarantees of the header it returns, as far as the theorems need it:
  the package name is a non-empty identifier, every import path literal is non-empty, the
  imports follow the package name in source order without overlapping
  (\<open>source_order\<close>), and each recorded text stands at its recorded offset in the file
  (\<open>located\<close>).
\<close>

fun imports_from :: "nat \<Rightarrow> import_spec list \<Rightarrow> bool" where
  "imports_from lo [] = True"
| "imports_from lo (s # ss) =
     (lo \<le> ValuePos (spec_Path s) \<and> Value (spec_Path s) \<noteq> []
      \<and> imports_from (lit_End (spec_Path s)) ss)"

definition source_order :: "ast_file \<Rightarrow> bool" where
  "source_order f =
     (Name (file_Name f) \<noteq> [] \<and> imports_from (ident_End (file_Name f)) (file_Imports f))"

definition text_at :: "string \<Rightarrow> nat \<Rightarrow> string \<Rightarrow> bool" where
  "text_at data pos s = (pos + length s \<le> length data \<and> take (length s) (drop pos data) = s)"

definition located :: "string \<Rightarrow> ast_file \<Rightarrow> bool" where
  "located data f =
     (text_at data (NamePos (file_Name f)) (Name (file_Name f))
      \<and> list_all (\<lambda>s. text_at data (ValuePos (spec_Path s)) (Value (spec_Path s)))
            (file_Imports f))"

text \<open>The range of the original bytes a buffer call edits, and the call as an edit.\<close>

fun call_start :: "buf_call \<Rightarrow> nat" where
  "call_start (Insert pos new) = pos"
| "call_start (Replace start fin new) = start"

fun call_end :: "buf_call \<Rightarrow> nat" where
  "call_end (Insert pos new) = pos"
| "call_end (Replace start fin new) = fin"

fun call_text :: "buf_call \<Rightarrow> string" where
  "call_text (Insert pos new) = new"
| "call_text (Replace start fin new) = new"

definition edit_of :: "buf_call \<Rightarrow> edit" where
  "edit_of c = \<lparr>e_start = call_start c, e_end = call_end c, e_new = call_text c\<rparr>"

fun ordered_from :: "nat \<Rightarrow> buf_call list \<Rightarrow> bool" where
  "ordered_from lo [] = True"
| "ordered_from lo (c # cs) =
     (lo \<le> call_start c \<and> call_start c \<le> call_end c \<and> ordered_from (call_end c) cs)"

section \<open>A concrete instance of the library, for evaluation\<close>

text \<open>
  The concrete instance agrees with the Go functions on the literals the examples use:
  \<open>unquote_plain\<close> with \<open>strconv.Unquote\<close> on a double-quoted literal of printable
  ASCII without backslash and on a raw (back-quoted) literal of printable ASCII;
  \<open>quote_plain\<close> with \<open>strconv.Quote\<close> on printable ASCII without backslash and double
  quote; \<open>is_identifier_ascii\<close> with \<open>token.IsIdentifier\<close> on ASCII strings. Outside
  these fragments (escape sequences, character literals, bytes beyond ASCII) the instance
  answers \<open>None\<close> or \<open>False\<close> and is not used.
\<close>

definition printable :: "char \<Rightarrow> bool" where
  "printable c = (32 \<le> (of_char c :: nat) \<and> (of_char c :: nat) < 127)"

definition unquote_plain :: "string \<Rightarrow> string option" where
  "unquote_plain s =
     (if length s < 2 then None
      else let body = butlast (tl s) in
        if hd s = dquote \<and> last s = dquote \<and> list_all printable body
           \<and> dquote \<notin> set body \<and> CHR 0x5C \<notin> set body then Some body
        else if hd s = bquote \<and> last s = bquote \<and> list_all printable body
           \<and> bquote \<notin> set body then Some body
        else None)"

definition quote_plain :: "string \<Rightarrow> string" where
  "quote_plain s = dquote # s @ [dquote]"

definition is_letter :: "char \<Rightarrow> bool" where
  "is_letter c =
     (let n = (of_char c :: nat) in (65 \<le> n \<and> n \<le> 90) \<or> (97 \<le> n \<and> n \<le> 122) \<or> n = 95)"

definition is_digit :: "char \<Rightarrow> bool" where
  "is_digit c = (48 \<le> (of_char c :: nat) \<and> (of_char c :: nat) \<le> 57)"

definition go_keywords :: "string list" where
  "go_keywords =
     [''break'', ''case'', ''chan'', ''const'', ''continue'', ''default'', ''defer'',
      ''else'', ''fallthrough'', ''for'', ''func'', ''go'', ''goto'', ''if'', ''import'',
      ''interface'', ''map'', ''package'', ''range'', ''return'', ''select'', ''struct'',
      ''switch'', ''type'', ''var'']"

definition is_identifier_ascii :: "string \<Rightarrow> bool" where
  "is_identifier_ascii s =
     (s \<noteq> [] \<and> list_all (\<lambda>c. is_letter c \<or> is_digit c) s \<and> \<not> is_digit (hd s)
      \<and> s \<notin> set go_keywords)"

definition golib_plain :: "(string \<Rightarrow> ast_file option) \<Rightarrow> golib" where
  "golib_plain parse =
     \<lparr>ParseFile = parse, Unquote = unquote_plain, Quote = quote_plain,
      IsIdentifier = is_identifier_ascii\<rparr>"

section \<open>The manifest rewriter: \<open>fixGoMod\<close>\<close>

text \<open>
  \<open>modfile.ParseLax\<close>, \<open>(*File).AddModuleStmt\<close> and \<open>(*File).Format\<close> belong to
  \<open>golang.org/x/mod\<close> and are parameters; \<open>None\<close> is a non-nil error.
  \<open>AddModuleStmt\<close> changes the parsed file in place, so the model returns the changed
  file. Lines 251 to 265: a parse error and an error of \<open>AddModuleStmt\<close> are fatal; when
  \<open>Format\<close> fails the function returns its argument \<open>data\<close>.
\<close>

record 'mf modlib =
  ParseLax :: "string \<Rightarrow> 'mf option"
  AddModuleStmt :: "'mf \<Rightarrow> string \<Rightarrow> 'mf option"
  Format :: "'mf \<Rightarrow> string option"

definition fixGoMod :: "'mf modlib \<Rightarrow> string \<Rightarrow> string \<Rightarrow> error + string" where
  "fixGoMod lib data dstMod =
     (case ParseLax lib data of
        None \<Rightarrow> Inl ParseError
      | Some file \<Rightarrow>
          (case AddModuleStmt lib file dstMod of
             None \<Rightarrow> Inl AddModuleStmtError
           | Some file' \<Rightarrow>
               (case Format lib file' of
                  None \<Rightarrow> Inr data
                | Some format \<Rightarrow> Inr format)))"

section \<open>The command: \<open>initProject\<close>\<close>

text \<open>
  The command acts on the world: it prints, reads directories and files, runs
  \<open>go mod download\<close>, creates directories and writes files. The model returns the
  sequence of these actions in the order the code performs them, together with how the
  run ended. What the world answers is given by an environment.
\<close>

datatype event =
  EvUsage
  | EvReadDir string
  | EvDownload string
  | EvMkdirAll string
  | EvReadFile string
  | EvWriteFile string string
  | EvTemplates string

datatype fatal =
  UsageError
  | IndexOutOfRange
  | InvalidSourceModule
  | InvalidDestinationModule
  | TargetNotEmpty string
  | DownloadFailed
  | InvalidJSON
  | MkdirFailed
  | WalkFailed
  | ReadFailed
  | RewriteFailed error
  | WriteFailed
  | TemplateFailed

text \<open>One call of the \<open>filepath.WalkDir\<close> callback: the path walked, whether the walk
  reports an error for it, what \<open>filepath.Rel\<close> answers, and whether it is a directory.\<close>

record walk_entry =
  w_path :: string
  w_err :: bool
  w_rel :: "string option"
  w_isDir :: bool

text \<open>
  The environment. \<open>CheckPath\<close> is \<open>module.CheckPath\<close> (true for a nil error);
  \<open>usage_fails\<close> says that \<open>cmd.Usage()\<close> returns an error; \<open>os_ReadDir\<close> returns
  the entries read and whether the error is non-nil, as \<open>os.ReadDir\<close> does;
  \<open>go_mod_download\<close> is the standard output of the command, \<open>None\<close> when it fails;
  \<open>json_Dir\<close> is the \<open>Dir\<close> field that \<open>json.Unmarshal\<close> decodes; \<open>os_MkdirAll\<close>
  and \<open>os_WriteFile\<close> are true on success; \<open>walk\<close> lists the callbacks of
  \<open>filepath.WalkDir\<close> in order; \<open>templates\<close> stands for lines 175 to 189
  (\<open>readConfig\<close>, \<open>runPrompts\<close>, \<open>replaceVars\<close>), true on success.
\<close>

record 'mf env =
  Separator :: char
  CheckPath :: "string \<Rightarrow> bool"
  usage_fails :: bool
  os_ReadDir :: "string \<Rightarrow> string list \<times> bool"
  go_mod_download :: "string \<Rightarrow> string option"
  json_Dir :: "string \<Rightarrow> string option"
  os_MkdirAll :: "string \<Rightarrow> bool"
  walk :: "string \<Rightarrow> walk_entry list"
  filepath_Join :: "string \<Rightarrow> string \<Rightarrow> string"
  os_ReadFile :: "string \<Rightarrow> string option"
  os_WriteFile :: "string \<Rightarrow> string \<Rightarrow> bool"
  go :: golib
  modfile :: "'mf modlib"
  templates :: "string \<Rightarrow> bool"

type_synonym run = "event list \<times> fatal option"

text \<open>Sequencing: the second part runs only when the first did not end the program.\<close>

definition and_then :: "run \<Rightarrow> run \<Rightarrow> run" where
  "and_then r k = (case snd r of Some e \<Rightarrow> r | None \<Rightarrow> (fst r @ fst k, snd k))"

text \<open>
  The callback of \<open>filepath.WalkDir\<close> (lines 137 to 170). Its first parameter is named
  \<open>src\<close> and hides the package variable of that name, so the call
  \<open>fixGo(data, rel, src, dst, isRoot)\<close> on line 160 passes the path of the walked file
  as \<open>srcMod\<close>; \<open>dst\<close> is the package variable.
\<close>

definition copy_entry :: "'mf env \<Rightarrow> string \<Rightarrow> string \<Rightarrow> walk_entry \<Rightarrow> run" where
  "copy_entry env dir dst e =
     (if w_err e then ([], Some WalkFailed)
      else case w_rel e of
        None \<Rightarrow> ([], Some WalkFailed)
      | Some rel \<Rightarrow>
          (let dstPath = filepath_Join env dir rel in
           if w_isDir e then
             ([EvMkdirAll dstPath], if os_MkdirAll env dstPath then None else Some MkdirFailed)
           else case os_ReadFile env (w_path e) of
             None \<Rightarrow> ([EvReadFile (w_path e)], Some ReadFailed)
           | Some data \<Rightarrow>
               (let isRoot = \<not> ContainsByte rel (Separator env) in
                case (if HasSuffix rel ''.go''
                      then fixGo (go env) data (w_path e) dst isRoot else Inr data) of
                  Inl err \<Rightarrow> ([EvReadFile (w_path e)], Some (RewriteFailed err))
                | Inr data1 \<Rightarrow>
                    (case (if rel = ''go.mod''
                           then fixGoMod (modfile env) data1 dst else Inr data1) of
                       Inl err \<Rightarrow> ([EvReadFile (w_path e)], Some (RewriteFailed err))
                     | Inr data2 \<Rightarrow>
                         ([EvReadFile (w_path e), EvWriteFile dstPath data2],
                          if os_WriteFile env dstPath data2 then None
                          else Some WriteFailed)))))"

fun copy_tree :: "'mf env \<Rightarrow> string \<Rightarrow> string \<Rightarrow> walk_entry list \<Rightarrow> run" where
  "copy_tree env dir dst [] = ([], None)"
| "copy_tree env dir dst (e # es) =
     and_then (copy_entry env dir dst e) (copy_tree env dir dst es)"

text \<open>Lines 82 to 106: the version to download, the two module paths and the target
  directory, computed from the arguments (\<open>args\<close> is not empty here).\<close>

definition arg_ver :: "string list \<Rightarrow> string" where
  "arg_ver args =
     (if \<not> ContainsByte (hd args) (CHR ''@'') then hd args @ ''@latest'' else hd args)"

definition arg_src :: "string list \<Rightarrow> string" where
  "arg_src args = CutBefore (hd args) (CHR ''@'')"

definition arg_dst :: "string list \<Rightarrow> string" where
  "arg_dst args = (if 2 \<le> length args then args ! 1 else arg_src args)"

definition arg_dir :: "'mf env \<Rightarrow> string list \<Rightarrow> string" where
  "arg_dir env args =
     (if length args = 3 then args ! 2
      else ''.'' @ [Separator env] @ path_Base (arg_dst args))"

text \<open>Lines 108 to 192, after both module paths have passed \<open>module.CheckPath\<close>.\<close>

definition fetch_and_copy :: "'mf env \<Rightarrow> string \<Rightarrow> string \<Rightarrow> string \<Rightarrow> run" where
  "fetch_and_copy env ver dst dir =
     (let (de, err) = os_ReadDir env dir in
      if \<not> err \<and> 0 < length de then ([EvReadDir dir], Some (TargetNotEmpty dir))
      else
        (let needMkdir = err in
         case go_mod_download env ver of
           None \<Rightarrow> ([EvReadDir dir, EvDownload ver], Some DownloadFailed)
         | Some stdout \<Rightarrow>
             (case json_Dir env stdout of
                None \<Rightarrow> ([EvReadDir dir, EvDownload ver], Some InvalidJSON)
              | Some infoDir \<Rightarrow>
                  and_then ([EvReadDir dir, EvDownload ver], None)
                 (and_then
                    (if needMkdir
                     then ([EvMkdirAll dir],
                           if os_MkdirAll env dir then None else Some MkdirFailed)
                     else ([], None))
                 (and_then (copy_tree env dir dst (walk env infoDir))
                    ([EvTemplates dir],
                     if templates env dir then None else Some TemplateFailed))))))"

text \<open>
  \<open>initProject\<close> (lines 74 to 192). With no argument or more than three the usage text
  is printed; the function returns if printing failed and goes on otherwise. \<open>args[0]\<close>
  of an empty list is a run-time panic. The destination module is checked only when it
  is given; otherwise it is the source module, which has been checked.
\<close>

definition initProject :: "'mf env \<Rightarrow> string list \<Rightarrow> run" where
  "initProject env args =
     (let wrong_count = (length args < 1 \<or> 3 < length args) in
      if wrong_count \<and> usage_fails env then ([EvUsage], Some UsageError)
      else and_then (if wrong_count then [EvUsage] else [], None)
        (if args = [] then ([], Some IndexOutOfRange)
         else if \<not> CheckPath env (arg_src args) then ([], Some InvalidSourceModule)
         else if 2 \<le> length args \<and> \<not> CheckPath env (args ! 1)
           then ([], Some InvalidDestinationModule)
         else fetch_and_copy env (arg_ver args) (arg_dst args) (arg_dir env args)))"

text \<open>An action that touches the file system or the network.\<close>

fun is_io :: "event \<Rightarrow> bool" where
  "is_io EvUsage = False"
| "is_io e = True"



section \<open>Example files\<close>

text \<open>
  Small source files with the header spans \<open>go/parser\<close> reports for them (offsets count
  bytes from 0), used to evaluate the definitions. \<open>parse_only src f\<close> is a parser that
  knows the one file \<open>src\<close>.
\<close>

definition newline :: char where
  "newline = CHR 0x0A"

definition quoted :: "string \<Rightarrow> string" where
  "quoted s = dquote # s @ [dquote]"

definition parse_only :: "string \<Rightarrow> ast_file \<Rightarrow> string \<Rightarrow> ast_file option" where
  "parse_only src f data = (if data = src then Some f else None)"

definition main_ident :: ident where
  "main_ident = \<lparr>NamePos = 8, Name = ''main''\<rparr>"

text \<open>\<open>package main\<close>, newline, \<open>import "a/b"\<close>, newline.\<close>

definition self_import_src :: string where
  "self_import_src = ''package main'' @ [newline] @ ''import '' @ quoted ''a/b'' @ [newline]"

definition self_import_spec :: import_spec where
  "self_import_spec =
     \<lparr>spec_Name = None, spec_Path = \<lparr>ValuePos = 20, Value = quoted ''a/b''\<rparr>\<rparr>"

definition self_import_ast :: ast_file where
  "self_import_ast = \<lparr>file_Name = main_ident, file_Imports = [self_import_spec]\<rparr>"

text \<open>\<open>package main\<close>, newline, \<open>import "a/b/x/a/b"\<close>, newline: a package below the old
  module whose path repeats the module path.\<close>

definition sub_import_src :: string where
  "sub_import_src =
     ''package main'' @ [newline] @ ''import '' @ quoted ''a/b/x/a/b'' @ [newline]"

definition sub_import_spec :: import_spec where
  "sub_import_spec =
     \<lparr>spec_Name = None, spec_Path = \<lparr>ValuePos = 20, Value = quoted ''a/b/x/a/b''\<rparr>\<rparr>"

definition sub_import_ast :: ast_file where
  "sub_import_ast = \<lparr>file_Name = main_ident, file_Imports = [sub_import_spec]\<rparr>"

text \<open>\<open>package main\<close>, newline, \<open>import "fmt"\<close>, newline: no reference to the module.\<close>

definition fmt_import_src :: string where
  "fmt_import_src = ''package main'' @ [newline] @ ''import '' @ quoted ''fmt'' @ [newline]"

definition fmt_import_ast :: ast_file where
  "fmt_import_ast =
     \<lparr>file_Name = main_ident,
      file_Imports = [\<lparr>spec_Name = None, spec_Path = \<lparr>ValuePos = 20, Value = quoted ''fmt''\<rparr>\<rparr>]\<rparr>"

text \<open>An import spec whose literal lacks the closing quote, which \<open>strconv.Unquote\<close>
  rejects.\<close>

definition broken_spec :: import_spec where
  "broken_spec = \<lparr>spec_Name = None, spec_Path = \<lparr>ValuePos = 14, Value = dquote # ''a/b''\<rparr>\<rparr>"

text \<open>\<open>package b_test\<close>, newline, \<open>import "a/b"\<close>, newline: the external test package
  of the module root, importing the module.\<close>

definition test_pkg_src :: string where
  "test_pkg_src = ''package b_test'' @ [newline] @ ''import '' @ quoted ''a/b'' @ [newline]"

definition test_pkg_ast :: ast_file where
  "test_pkg_ast =
     \<lparr>file_Name = \<lparr>NamePos = 8, Name = ''b_test''\<rparr>,
      file_Imports = [\<lparr>spec_Name = None, spec_Path = \<lparr>ValuePos = 22, Value = quoted ''a/b''\<rparr>\<rparr>]\<rparr>"

text \<open>\<open>package b\<close>, newline.\<close>

definition pkg_b_src :: string where
  "pkg_b_src = ''package b'' @ [newline]"

definition pkg_b_ast :: ast_file where
  "pkg_b_ast = \<lparr>file_Name = \<lparr>NamePos = 8, Name = ''b''\<rparr>, file_Imports = []\<rparr>"

text \<open>\<open>package main\<close>, newline, \<open>import\<close> and the path \<open>example.com/b\<close> written as a raw
  string literal between back quotes, newline.\<close>

definition raw_lit :: string where
  "raw_lit = bquote # ''example.com/b'' @ [bquote]"

definition raw_import_src :: string where
  "raw_import_src = ''package main'' @ [newline] @ ''import '' @ raw_lit @ [newline]"

definition raw_import_ast :: ast_file where
  "raw_import_ast =
     \<lparr>file_Name = main_ident,
      file_Imports = [\<lparr>spec_Name = None, spec_Path = \<lparr>ValuePos = 20, Value = raw_lit\<rparr>\<rparr>]\<rparr>"

text \<open>\<open>package b_test\<close>, newline, \<open>import "example.com/b"\<close>, newline: the external
  test package at the root of the module \<open>example.com/b\<close>.\<close>

definition mod_test_src :: string where
  "mod_test_src =
     ''package b_test'' @ [newline] @ ''import '' @ quoted ''example.com/b'' @ [newline]"

definition mod_test_ast :: ast_file where
  "mod_test_ast =
     \<lparr>file_Name = \<lparr>NamePos = 8, Name = ''b_test''\<rparr>,
      file_Imports =
        [\<lparr>spec_Name = None, spec_Path = \<lparr>ValuePos = 22, Value = quoted ''example.com/b''\<rparr>\<rparr>]\<rparr>"

section \<open>Example environments\<close>

text \<open>
  A manifest library for evaluation: a parsed manifest is its list of lines,
  \<open>AddModuleStmt\<close> puts the new module line first and drops the old one, and
  \<open>Format\<close> joins the lines again; none of the three reports an error.
\<close>

fun split_lines :: "string \<Rightarrow> string list" where
  "split_lines [] = [[]]"
| "split_lines (c # cs) =
     (if c = newline then [] # split_lines cs
      else case split_lines cs of
             [] \<Rightarrow> [[c]]
           | l # ls \<Rightarrow> (c # l) # ls)"

fun join_lines :: "string list \<Rightarrow> string" where
  "join_lines [] = []"
| "join_lines [l] = l"
| "join_lines (l # ls) = l @ [newline] @ join_lines ls"

definition lines_modlib :: "string list modlib" where
  "lines_modlib =
     \<lparr>ParseLax = (\<lambda>data. Some (split_lines data)),
      AddModuleStmt =
        (\<lambda>ls m. Some ((''module '' @ m) # filter (\<lambda>l. \<not> HasPrefix l ''module '') ls)),
      Format = (\<lambda>ls. Some (join_lines ls))\<rparr>"

text \<open>
  An environment for evaluation. \<open>check_path_demo\<close> stands in for \<open>module.CheckPath\<close>
  and agrees with it on the paths of the examples: a module path is not empty, holds no
  space, and its first element holds a dot. The other answers are parameters or fixed:
  whether printing the usage fails, what \<open>os.ReadDir\<close> answers, what the download
  prints, and the callbacks of the walk.
\<close>

definition check_path_demo :: "string \<Rightarrow> bool" where
  "check_path_demo s =
     (s \<noteq> [] \<and> CHR '' '' \<notin> set s \<and> CHR ''.'' \<in> set (takeWhile (\<lambda>c. c \<noteq> CHR ''/'') s))"

definition demo_env ::
  "bool \<Rightarrow> string list \<times> bool \<Rightarrow> string option \<Rightarrow> walk_entry list \<Rightarrow> string list env" where
  "demo_env uf rd dl entries =
     \<lparr>Separator = CHR ''/'',
      CheckPath = check_path_demo,
      usage_fails = uf,
      os_ReadDir = (\<lambda>d. rd),
      go_mod_download = (\<lambda>v. dl),
      json_Dir = (\<lambda>out. Some out),
      os_MkdirAll = (\<lambda>d. True),
      walk = (\<lambda>d. entries),
      filepath_Join = (\<lambda>a b. a @ ''/'' @ b),
      os_ReadFile = (\<lambda>p. if p = ''/cache/b_test.go'' then Some mod_test_src else None),
      os_WriteFile = (\<lambda>p d. True),
      go = golib_plain (parse_only mod_test_src mod_test_ast),
      modfile = lines_modlib,
      templates = (\<lambda>d. True)\<rparr>"

text \<open>The walk of a module cache directory \<open>/cache\<close> that holds the one file
  \<open>b_test.go\<close>.\<close>

definition demo_walk :: "walk_entry list" where
  "demo_walk =
     [\<lparr>w_path = ''/cache/b_test.go'', w_err = False, w_rel = Some ''b_test.go'',
       w_isDir = False\<rparr>]"

text \<open>The events before the module paths are checked: the usage text, when the number
  of arguments is wrong.\<close>

definition usage_events :: "string list \<Rightarrow> event list" where
  "usage_events args = (if length args < 1 \<or> 3 < length args then [EvUsage] else [])"


section \<open>Predicates on buffer calls\<close>

text \<open>A \<open>Replace\<close> over a non-empty range; a call whose new text is the text it replaces.\<close>

fun proper :: "buf_call \<Rightarrow> bool" where
  "proper (Insert pos new) = True"
| "proper (Replace start fin new) = (start < fin)"

definition same_text :: "string \<Rightarrow> buf_call \<Rightarrow> bool" where
  "same_text data c =
     (call_start c \<le> call_end c \<and> call_end c \<le> length data
      \<and> take (call_end c - call_start c) (drop (call_start c) data) = call_text c)"

text \<open>The bytes that result from applying calls in the order given, from offset \<open>lo\<close>
  of the original on: the gap before each call is copied, the text of the call follows.\<close>

fun splice :: "string \<Rightarrow> nat \<Rightarrow> buf_call list \<Rightarrow> string" where
  "splice data lo [] = drop lo data"
| "splice data lo (c # cs) =
     take (call_start c - lo) (drop lo data) @ call_text c @ splice data (call_end c) cs"

section \<open>Lemmas about the string helpers and the planner\<close>

lemma HasPrefix_append: "HasPrefix (p @ r) p"
  by (simp add: HasPrefix_def)

lemma not_HasPrefix_longer: "\<not> HasPrefix s (s @ ''/'')"
  by (simp add: HasPrefix_def)

lemma Replace1_prefix: "Replace1 (old @ r) old new = new @ r"
proof (cases "old @ r")
  case Nil
  then show ?thesis by simp
next
  case (Cons c cs)
  have "HasPrefix (old @ r) old" by (rule HasPrefix_append)
  then have "Replace1 (c # cs) old new = new @ drop (length old) (c # cs)"
    by (simp add: Cons)
  also have "drop (length old) (c # cs) = r"
    using Cons [symmetric] by simp
  finally show ?thesis by (simp add: Cons)
qed

lemma fix_import_self:
  "Unquote lib (Value (spec_Path spec)) = Some srcMod \<Longrightarrow>
   fix_import lib srcMod dstMod spec =
     (if path_Base srcMod \<noteq> path_Base dstMod \<and> spec_Name spec = None
      then [Insert (ValuePos (spec_Path spec)) (path_Base srcMod @ '' '')] else [])
     @ [Replace (ValuePos (spec_Path spec)) (lit_End (spec_Path spec)) (Quote lib dstMod)]"
  by (simp add: fix_import_def Let_def not_HasPrefix_longer)

lemma fix_import_sub:
  "Unquote lib (Value (spec_Path spec)) = Some (srcMod @ ''/'' @ rest) \<Longrightarrow>
   fix_import lib srcMod dstMod spec =
     [Replace (ValuePos (spec_Path spec)) (lit_End (spec_Path spec))
        (Quote lib (dstMod @ ''/'' @ rest))]"
  using HasPrefix_append [of "srcMod @ ''/''" rest]
    Replace1_prefix [of srcMod "''/'' @ rest" dstMod]
  by (simp add: fix_import_def Let_def)

lemma fix_import_unquote_error:
  "Unquote lib (Value (spec_Path spec)) = None \<Longrightarrow> fix_import lib srcMod dstMod spec = []"
  by (simp add: fix_import_def Let_def)

lemma fix_import_other:
  "Unquote lib (Value (spec_Path spec)) = Some p \<Longrightarrow> p \<noteq> srcMod \<Longrightarrow>
   \<not> HasPrefix p (srcMod @ ''/'') \<Longrightarrow> fix_import lib srcMod dstMod spec = []"
  by (simp add: fix_import_def Let_def)

lemma fixGo_calls_split:
  "file_Imports f = xs @ spec # ys \<Longrightarrow> fix_package lib f srcMod dstMod isRoot = Inr pk \<Longrightarrow>
   fixGo_calls lib f srcMod dstMod isRoot =
     Inr (pk @ concat (map (fix_import lib srcMod dstMod) xs) @ fix_import lib srcMod dstMod spec
          @ concat (map (fix_import lib srcMod dstMod) ys))"
  by (simp add: fixGo_calls_def)

lemma fix_package_imports:
  "fix_package lib (f\<lparr>file_Imports := imps\<rparr>) srcMod dstMod isRoot
     = fix_package lib f srcMod dstMod isRoot"
  by (simp add: fix_package_def Let_def)

section \<open>Lemmas about the patch buffer\<close>

lemma queue_foldl: "b_q (foldl run_call b cs) = b_q b @ map edit_of cs"
proof (induction cs arbitrary: b)
  case Nil
  show ?case by simp
next
  case (Cons c cs)
  show ?case
    by (cases c) (simp_all add: Cons.IH Buffer_Insert_def Buffer_Replace_def edit_of_def)
qed

lemma old_foldl: "b_old (foldl run_call b cs) = b_old b"
proof (induction cs arbitrary: b)
  case Nil
  show ?case by simp
next
  case (Cons c cs)
  show ?case
    by (cases c) (simp_all add: Cons.IH Buffer_Insert_def Buffer_Replace_def)
qed

lemma Bytes_calls:
  "Bytes (foldl run_call (NewBuffer data) cs)
     = materialize data 0 (sort_key edit_key (map edit_of cs))"
  by (simp add: Bytes_def queue_foldl old_foldl NewBuffer_def)

section \<open>Lemmas about the order of the buffer calls\<close>

lemma ordered_from_lower: "ordered_from lo cs \<Longrightarrow> c \<in> set cs \<Longrightarrow> lo \<le> call_start c"
proof (induction cs arbitrary: lo)
  case Nil
  then show ?case by simp
next
  case (Cons a cs)
  show ?case
  proof (cases "c = a")
    case True
    with Cons.prems show ?thesis by simp
  next
    case False
    with Cons.prems have "c \<in> set cs" "ordered_from (call_end a) cs" by simp_all
    then have "call_end a \<le> call_start c" by (rule Cons.IH [rotated])
    with Cons.prems show ?thesis by simp
  qed
qed

lemma ordered_from_span: "ordered_from lo cs \<Longrightarrow> c \<in> set cs \<Longrightarrow> call_start c \<le> call_end c"
  by (induction cs arbitrary: lo) auto

lemma ordered_from_mono: "ordered_from lo cs \<Longrightarrow> lo' \<le> lo \<Longrightarrow> ordered_from lo' cs"
  by (cases cs) auto

lemma ordered_from_append:
  "ordered_from lo xs \<Longrightarrow> ordered_from hi ys \<Longrightarrow> lo \<le> hi \<Longrightarrow>
   \<forall>c \<in> set xs. call_end c \<le> hi \<Longrightarrow> ordered_from lo (xs @ ys)"
proof (induction xs arbitrary: lo)
  case Nil
  then show ?case by (simp add: ordered_from_mono)
next
  case (Cons a xs)
  then show ?case by simp
qed

lemma ordered_from_nth:
  "ordered_from lo cs \<Longrightarrow> i < j \<Longrightarrow> j < length cs \<Longrightarrow> call_end (cs ! i) \<le> call_start (cs ! j)"
proof (induction cs arbitrary: lo i j)
  case Nil
  then show ?case by simp
next
  case (Cons a cs)
  from Cons.prems obtain j' where j: "j = Suc j'" "j' < length cs"
    by (cases j) auto
  from Cons.prems have tl: "ordered_from (call_end a) cs" by simp
  show ?case
  proof (cases i)
    case 0
    from tl j have "call_end a \<le> call_start (cs ! j')"
      by (intro ordered_from_lower) auto
    with 0 j show ?thesis by simp
  next
    case (Suc i')
    with Cons.prems j have "i' < j'" by simp
    from Cons.IH [OF tl this j(2)] Suc j show ?thesis by simp
  qed
qed

lemma fix_import_shape:
  "fix_import lib srcMod dstMod spec = []
   \<or> (\<exists>t. fix_import lib srcMod dstMod spec
          = [Replace (ValuePos (spec_Path spec)) (lit_End (spec_Path spec)) t])
   \<or> (\<exists>a t. fix_import lib srcMod dstMod spec
          = [Insert (ValuePos (spec_Path spec)) a,
             Replace (ValuePos (spec_Path spec)) (lit_End (spec_Path spec)) t])"
proof (cases "Unquote lib (Value (spec_Path spec))")
  case None
  then show ?thesis by (simp add: fix_import_unquote_error)
next
  case (Some p)
  show ?thesis
  proof (cases "p = srcMod")
    case True
    with Some show ?thesis by (simp add: fix_import_self)
  next
    case False
    with Some show ?thesis by (simp add: fix_import_def Let_def)
  qed
qed

lemma fix_import_ordered:
  assumes "lo \<le> ValuePos (spec_Path spec)" and "Value (spec_Path spec) \<noteq> []"
  shows "ordered_from lo (fix_import lib srcMod dstMod spec)
    \<and> (\<forall>c \<in> set (fix_import lib srcMod dstMod spec). call_end c \<le> lit_End (spec_Path spec))
    \<and> (\<forall>c \<in> set (fix_import lib srcMod dstMod spec). proper c)"
proof -
  from assms(2) have "ValuePos (spec_Path spec) < lit_End (spec_Path spec)"
    by (simp add: lit_End_def)
  with assms(1) fix_import_shape [of lib srcMod dstMod spec] show ?thesis
    by auto
qed

lemma imports_ordered:
  "imports_from lo specs \<Longrightarrow>
   ordered_from lo (concat (map (fix_import lib srcMod dstMod) specs))
   \<and> (\<forall>c \<in> set (concat (map (fix_import lib srcMod dstMod) specs)). proper c)"
proof (induction specs arbitrary: lo)
  case Nil
  then show ?case by simp
next
  case (Cons s ss)
  from Cons.prems have s: "lo \<le> ValuePos (spec_Path s)" "Value (spec_Path s) \<noteq> []"
    and ss: "imports_from (lit_End (spec_Path s)) ss" by simp_all
  note h = fix_import_ordered [OF s, of lib srcMod dstMod]
  note ih = Cons.IH [OF ss]
  have "lo \<le> lit_End (spec_Path s)" using s(1) by (simp add: lit_End_def)
  with h ih have "ordered_from lo (fix_import lib srcMod dstMod s
      @ concat (map (fix_import lib srcMod dstMod) ss))"
    by (intro ordered_from_append) auto
  with h ih show ?case by auto
qed

lemma fix_package_shape:
  "fix_package lib f srcMod dstMod isRoot = Inr pk \<Longrightarrow>
   pk = [] \<or> (\<exists>t. pk = [Replace (NamePos (file_Name f)) (ident_End (file_Name f)) t])"
  by (auto simp: fix_package_def Let_def split: if_splits)

lemma fixGo_calls_ordered:
  assumes "source_order f" and "fixGo_calls lib f srcMod dstMod isRoot = Inr cs"
  shows "ordered_from 0 cs \<and> (\<forall>c \<in> set cs. proper c)"
proof -
  from assms(2) obtain pk where pk: "fix_package lib f srcMod dstMod isRoot = Inr pk"
    and cs: "cs = pk @ concat (map (fix_import lib srcMod dstMod) (file_Imports f))"
    by (auto simp: fixGo_calls_def split: sum.splits)
  from assms(1) have name: "NamePos (file_Name f) < ident_End (file_Name f)"
    and imps: "imports_from (ident_End (file_Name f)) (file_Imports f)"
    by (simp_all add: source_order_def ident_End_def)
  note io = imports_ordered [OF imps, of lib srcMod dstMod]
  from fix_package_shape [OF pk] name
  have p: "ordered_from 0 pk" "\<forall>c \<in> set pk. call_end c \<le> ident_End (file_Name f)"
    "\<forall>c \<in> set pk. proper c"
    by auto
  from p(1) io p(2) have "ordered_from 0 cs"
    unfolding cs by (intro ordered_from_append) auto
  with p(3) io show ?thesis by (auto simp: cs)
qed


section \<open>Lemmas about edits that change nothing\<close>

lemma ordered_keys_sorted: "ordered_from lo cs \<Longrightarrow> sorted (map edit_key (map edit_of cs))"
proof (induction cs arbitrary: lo)
  case Nil
  show ?case by simp
next
  case (Cons c cs)
  from Cons.prems have c: "call_start c \<le> call_end c" and tl: "ordered_from (call_end c) cs"
    by simp_all
  have "edit_key (edit_of c) \<le> edit_key (edit_of c')" if "c' \<in> set cs" for c'
  proof -
    from ordered_from_lower [OF tl that] have "call_end c \<le> call_start c'" .
    with c show ?thesis
      by (auto simp: edit_key_def edit_of_def less_eq_prod_def)
  qed
  with Cons.IH [OF tl] show ?case by auto
qed

lemma sort_ordered: "ordered_from lo cs \<Longrightarrow> sort_key edit_key (map edit_of cs) = map edit_of cs"
  by (rule sort_key_id_if_sorted) (rule ordered_keys_sorted)

lemma splice_same:
  assumes "s \<le> e" and "lo \<le> s" and "e \<le> length data"
  shows "take (s - lo) (drop lo data) @ take (e - s) (drop s data) @ drop e data = drop lo data"
proof -
  have "take (e - s) (drop s data) @ drop e data = drop s data"
    using assms(1) append_take_drop_id [of "e - s" "drop s data"] by simp
  moreover have "take (s - lo) (drop lo data) @ drop s data = drop lo data"
    using assms(2) append_take_drop_id [of "s - lo" "drop lo data"] by simp
  ultimately show ?thesis by simp
qed

lemma materialize_same:
  "ordered_from lo cs \<Longrightarrow> \<forall>c \<in> set cs. same_text data c \<Longrightarrow>
   materialize data lo (map edit_of cs) = Inr (drop lo data)"
proof (induction cs arbitrary: lo)
  case Nil
  show ?case by simp
next
  case (Cons c cs)
  from Cons.prems have lo: "lo \<le> call_start c" and tl: "ordered_from (call_end c) cs"
    and st: "same_text data c" and rest: "\<forall>c \<in> set cs. same_text data c"
    by simp_all
  from st have se: "call_start c \<le> call_end c" and el: "call_end c \<le> length data"
    and tx: "call_text c = take (call_end c - call_start c) (drop (call_start c) data)"
    by (simp_all add: same_text_def)
  have ih: "materialize data (call_end c) (map edit_of cs) = Inr (drop (call_end c) data)"
    by (rule Cons.IH [OF tl rest])
  have "materialize data lo (map edit_of (c # cs))
      = Inr (take (call_start c - lo) (drop lo data) @ call_text c @ drop (call_end c) data)"
    using lo se el ih by (simp add: edit_of_def)
  also have "take (call_start c - lo) (drop lo data) @ call_text c @ drop (call_end c) data
      = drop lo data"
    unfolding tx by (rule splice_same [OF se lo el])
  finally show ?case .
qed

lemma HasPrefix_split: "HasPrefix p q \<Longrightarrow> p = q @ drop (length q) p"
  using append_take_drop_id [of "length q" p] by (simp add: HasPrefix_def)

lemma Replace1_same: "HasPrefix p (m @ ''/'') \<Longrightarrow> Replace1 p m m = p"
proof -
  assume "HasPrefix p (m @ ''/'')"
  then have "p = m @ (''/'' @ drop (length (m @ ''/'')) p)"
    using HasPrefix_split [of p "m @ ''/''"] by simp
  then obtain r where p: "p = m @ r" ..
  show ?thesis unfolding p by (rule Replace1_prefix)
qed

lemma text_at_same:
  "text_at data pos s \<Longrightarrow> same_text data (Replace pos (pos + length s) s)"
  by (simp add: text_at_def same_text_def)

lemma fix_import_same:
  assumes "text_at data (ValuePos (spec_Path spec)) (Value (spec_Path spec))"
    and "\<forall>p. Unquote lib (Value (spec_Path spec)) = Some p \<and> (p = m \<or> HasPrefix p (m @ ''/''))
           \<longrightarrow> Quote lib p = Value (spec_Path spec)"
  shows "\<forall>c \<in> set (fix_import lib m m spec). same_text data c"
proof (cases "Unquote lib (Value (spec_Path spec))")
  case None
  then show ?thesis by (simp add: fix_import_unquote_error)
next
  case (Some p)
  note st = text_at_same [OF assms(1)]
  show ?thesis
  proof (cases "p = m")
    case True
    with Some assms(2) have "Quote lib m = Value (spec_Path spec)" by simp
    with Some True st show ?thesis by (simp add: fix_import_self lit_End_def)
  next
    case False
    show ?thesis
    proof (cases "HasPrefix p (m @ ''/'')")
      case True
      with Some assms(2) have "Quote lib p = Value (spec_Path spec)" by simp
      with Some True False st show ?thesis
        by (simp add: fix_import_def Let_def Replace1_same lit_End_def)
    next
      case nope: False
      with Some False show ?thesis by (simp add: fix_import_other)
    qed
  qed
qed

lemma fix_package_same:
  assumes "text_at data (NamePos (file_Name f)) (Name (file_Name f))"
    and "IsIdentifier lib (Name (file_Name f))"
  shows "\<exists>pk. fix_package lib f m m isRoot = Inr pk \<and> (\<forall>c \<in> set pk. same_text data c)"
proof -
  note st = text_at_same [OF assms(1)]
  have "path_Base m @ TrimPrefix (Name (file_Name f)) (path_Base m) = Name (file_Name f)"
    if "Name (file_Name f) = path_Base m \<or> Name (file_Name f) = path_Base m @ ''_test''"
    using that by (auto simp: TrimPrefix_def HasPrefix_def)
  with assms(2) st show ?thesis
    by (auto simp: fix_package_def Let_def ident_End_def)
qed


section \<open>Lemmas about \<open>initProject\<close>\<close>



lemma and_then_fatal: "snd r = Some e \<Longrightarrow> and_then r k = r"
  by (simp add: and_then_def)





lemma fetch_and_copy_no_mkdir:
  "os_ReadDir env dir = ([], False) \<Longrightarrow> go_mod_download env ver = Some out \<Longrightarrow>
   json_Dir env out = Some infoDir \<Longrightarrow>
   fetch_and_copy env ver dst dir
     = and_then ([EvReadDir dir, EvDownload ver], None)
         (and_then (copy_tree env dir dst (walk env infoDir))
            ([EvTemplates dir], if templates env dir then None else Some TemplateFailed))"
  by (simp add: fetch_and_copy_def and_then_def)



lemma initProject_unchecked:
  assumes "args \<noteq> []" and "\<not> CheckPath env (arg_src args) \<or> \<not> CheckPath env (arg_dst args)"
  shows "initProject env args = ([EvUsage], Some UsageError) \<and> 3 < length args \<and> usage_fails env
    \<or> initProject env args = (usage_events args, Some InvalidSourceModule)
    \<or> initProject env args = (usage_events args, Some InvalidDestinationModule)"
proof (cases "(length args < 1 \<or> 3 < length args) \<and> usage_fails env")
  case True
  with assms(1) show ?thesis by (auto simp: initProject_def)
next
  case False
  show ?thesis
  proof (cases "CheckPath env (arg_src args)")
    case src: False
    with False assms(1) show ?thesis
      by (auto simp: initProject_def Let_def and_then_def usage_events_def)
  next
    case True
    with assms(2) have "2 \<le> length args \<and> \<not> CheckPath env (args ! 1)"
      by (auto simp: arg_dst_def split: if_splits)
    with False True assms(1) show ?thesis
      by (auto simp: initProject_def Let_def and_then_def usage_events_def)
  qed
qed

section \<open>The bytes \<open>fixGo\<close> returns\<close>

text \<open>For a header as the parser reports it, the calls of \<open>fixGo\<close> never overlap and
  lie within the file, so the buffer returns the spliced bytes.\<close>

lemma edit_of_fields:
  "e_start (edit_of c) = call_start c" "e_end (edit_of c) = call_end c"
  "e_new (edit_of c) = call_text c"
  by (simp_all add: edit_of_def)

lemma materialize_splice:
  "ordered_from lo cs \<Longrightarrow> \<forall>c \<in> set cs. call_end c \<le> length data \<Longrightarrow>
   materialize data lo (map edit_of cs) = Inr (splice data lo cs)"
proof (induction cs arbitrary: lo)
  case Nil
  show ?case by simp
next
  case (Cons c cs)
  from Cons.prems have "materialize data (call_end c) (map edit_of cs)
      = Inr (splice data (call_end c) cs)"
    by (intro Cons.IH) simp_all
  with Cons.prems show ?case
    by (simp add: edit_of_fields)
qed

lemma fix_import_in_range:
  assumes "text_at data (ValuePos (spec_Path spec)) (Value (spec_Path spec))"
  shows "\<forall>c \<in> set (fix_import lib srcMod dstMod spec). call_end c \<le> length data"
proof -
  from assms have "lit_End (spec_Path spec) \<le> length data"
    by (simp add: text_at_def lit_End_def)
  moreover have "ValuePos (spec_Path spec) \<le> lit_End (spec_Path spec)"
    by (simp add: lit_End_def)
  ultimately show ?thesis
    using fix_import_shape [of lib srcMod dstMod spec] by auto
qed

lemma fixGo_calls_in_range:
  assumes "located data f" and "fixGo_calls lib f srcMod dstMod isRoot = Inr cs"
  shows "\<forall>c \<in> set cs. call_end c \<le> length data"
proof -
  from assms(2) obtain pk where pk: "fix_package lib f srcMod dstMod isRoot = Inr pk"
    and cs: "cs = pk @ concat (map (fix_import lib srcMod dstMod) (file_Imports f))"
    by (auto simp: fixGo_calls_def split: sum.splits)
  from assms(1) have "ident_End (file_Name f) \<le> length data"
    by (simp add: located_def text_at_def ident_End_def)
  with fix_package_shape [OF pk] have "\<forall>c \<in> set pk. call_end c \<le> length data"
    by auto
  moreover from assms(1)
  have "\<forall>s \<in> set (file_Imports f). text_at data (ValuePos (spec_Path s)) (Value (spec_Path s))"
    by (simp add: located_def list_all_iff)
  then have "\<forall>c \<in> set (concat (map (fix_import lib srcMod dstMod) (file_Imports f))).
      call_end c \<le> length data"
    using fix_import_in_range [of data _ lib srcMod dstMod] by auto
  ultimately show ?thesis by (auto simp: cs)
qed

lemma fixGo_returns_splice:
  assumes "ParseFile lib data = Some f" and "source_order f" and "located data f"
    and "fixGo_calls lib f srcMod dstMod isRoot = Inr cs"
  shows "fixGo lib data srcMod dstMod isRoot = Inr (splice data 0 cs)"
proof -
  from fixGo_calls_ordered [OF assms(2) assms(4)] have ord: "ordered_from 0 cs" by simp
  have "fixGo lib data srcMod dstMod isRoot = Bytes (foldl run_call (NewBuffer data) cs)"
    using assms(1) assms(4) by (simp add: fixGo_def)
  also have "\<dots> = materialize data 0 (sort_key edit_key (map edit_of cs))"
    by (rule Bytes_calls)
  also have "\<dots> = materialize data 0 (map edit_of cs)"
    by (simp only: sort_ordered [OF ord])
  also have "\<dots> = Inr (splice data 0 cs)"
    by (rule materialize_splice [OF ord fixGo_calls_in_range [OF assms(3) assms(4)]])
  finally show ?thesis .
qed

section \<open>The module path that reaches \<open>fixGo\<close> from \<open>initProject\<close>\<close>

text \<open>
  The external test file of the module \<open>example.com/b\<close>, copied by the command
  \<open>init example.com/b example.com/c\<close> into a directory that does not exist yet. Called
  with the two module paths, \<open>fixGo\<close> renames the package and rewrites the import. The
  command writes the file unchanged: on line 160 the name \<open>src\<close> is the parameter of the
  walk callback, the path of the file in the module cache, and no import names that path.
\<close>

lemma fixGo_with_module_paths:
  "fixGo (golib_plain (parse_only mod_test_src mod_test_ast)) mod_test_src
     ''example.com/b'' ''example.com/c'' True
   = Inr (''package c_test'' @ [newline] @ ''import b '' @ quoted ''example.com/c'' @ [newline])"
  by code_simp

lemma initProject_writes_unchanged:
  "initProject (demo_env False ([], True) (Some ''/cache'') demo_walk)
      [''example.com/b'', ''example.com/c'']
     = ([EvReadDir ''./c'', EvDownload ''example.com/b@latest'', EvMkdirAll ''./c'',
         EvReadFile ''/cache/b_test.go'', EvWriteFile ''./c/b_test.go'' mod_test_src,
         EvTemplates ''./c''], None)"
  by code_simp

section \<open>\<open>fixGoMod\<close> when the manifest library reports no error\<close>

text \<open>When parsing, \<open>AddModuleStmt\<close> and \<open>Format\<close> succeed, \<open>fixGoMod\<close> returns
  what \<open>Format\<close> returns for the edited manifest; for the manifest \<open>module a/b\<close> and
  the new module path \<open>a/c\<close> the example library gives \<open>module a/c\<close>.\<close>

lemma fixGoMod_formatted:
  "ParseLax lib data = Some file \<Longrightarrow> AddModuleStmt lib file dstMod = Some file' \<Longrightarrow>
   Format lib file' = Some out \<Longrightarrow> fixGoMod lib data dstMod = Inr out"
  by (simp add: fixGoMod_def)

lemma fixGoMod_module_line:
  "fixGoMod lines_modlib (''module a/b'' @ [newline]) ''a/c'' = Inr (''module a/c'' @ [newline])"
  by code_simp

section \<open>The claims\<close>

text \<open>
  C1. For an import spec whose unquoted path is the old module path: when the base names
  of the old and new module paths differ and the spec has no alias, \<open>fixGo\<close> calls
  \<open>Insert\<close> at the start of the path literal with the old base name and a space, and
  then \<open>Replace\<close> over the path literal with the quoted new module path; when the base
  names are equal or an alias is present it only calls \<open>Replace\<close>. In the plan of the
  whole file (when the package clause did not end the program, see C5) these calls
  stand between those of the imports before and after. With old path \<open>a/b\<close> and new path \<open>a/c\<close> the
  file text \<open>import "a/b"\<close> becomes \<open>import b "a/c"\<close>.
\<close>

theorem fixGo_self_import:
  assumes "Unquote lib (Value (spec_Path spec)) = Some srcMod"
  shows "fix_import lib srcMod dstMod spec
     = (if path_Base srcMod \<noteq> path_Base dstMod \<and> spec_Name spec = None
        then [Insert (ValuePos (spec_Path spec)) (path_Base srcMod @ '' '')] else [])
       @ [Replace (ValuePos (spec_Path spec)) (lit_End (spec_Path spec)) (Quote lib dstMod)]
    \<and> (file_Imports f = xs @ spec # ys \<and> fix_package lib f srcMod dstMod isRoot = Inr pk
       \<longrightarrow> fixGo_calls lib f srcMod dstMod isRoot =
           Inr (pk @ concat (map (fix_import lib srcMod dstMod) xs)
                @ (if path_Base srcMod \<noteq> path_Base dstMod \<and> spec_Name spec = None
                   then [Insert (ValuePos (spec_Path spec)) (path_Base srcMod @ '' '')] else [])
                @ [Replace (ValuePos (spec_Path spec)) (lit_End (spec_Path spec))
                     (Quote lib dstMod)]
                @ concat (map (fix_import lib srcMod dstMod) ys)))"
proof (intro conjI impI)
  show "fix_import lib srcMod dstMod spec
     = (if path_Base srcMod \<noteq> path_Base dstMod \<and> spec_Name spec = None
        then [Insert (ValuePos (spec_Path spec)) (path_Base srcMod @ '' '')] else [])
       @ [Replace (ValuePos (spec_Path spec)) (lit_End (spec_Path spec)) (Quote lib dstMod)]"
    by (rule fix_import_self [OF assms])
next
  assume "file_Imports f = xs @ spec # ys \<and> fix_package lib f srcMod dstMod isRoot = Inr pk"
  then have "fixGo_calls lib f srcMod dstMod isRoot =
     Inr (pk @ concat (map (fix_import lib srcMod dstMod) xs) @ fix_import lib srcMod dstMod spec
          @ concat (map (fix_import lib srcMod dstMod) ys))"
    by (intro fixGo_calls_split) simp_all
  then show "fixGo_calls lib f srcMod dstMod isRoot =
     Inr (pk @ concat (map (fix_import lib srcMod dstMod) xs)
          @ (if path_Base srcMod \<noteq> path_Base dstMod \<and> spec_Name spec = None
             then [Insert (ValuePos (spec_Path spec)) (path_Base srcMod @ '' '')] else [])
          @ [Replace (ValuePos (spec_Path spec)) (lit_End (spec_Path spec)) (Quote lib dstMod)]
          @ concat (map (fix_import lib srcMod dstMod) ys))"
    by (simp add: fix_import_self [OF assms])
qed

theorem fixGo_self_import_witness:
  "fixGo_calls (golib_plain (parse_only self_import_src self_import_ast)) self_import_ast
      ''a/b'' ''a/c'' False
     = Inr [Insert 20 ''b '', Replace 20 25 (quoted ''a/c'')]
   \<and> fixGo (golib_plain (parse_only self_import_src self_import_ast)) self_import_src
        ''a/b'' ''a/c'' False
     = Inr (''package main'' @ [newline] @ ''import b '' @ quoted ''a/c'' @ [newline])"
proof -
  let ?lib = "golib_plain (parse_only self_import_src self_import_ast)"
  have h1: "file_Imports self_import_ast = [] @ self_import_spec # []"
    by (simp add: self_import_ast_def)
  have h2: "Unquote ?lib (Value (spec_Path self_import_spec)) = Some ''a/b''"
    by code_simp
  have h3: "fix_package ?lib self_import_ast ''a/b'' ''a/c'' False = Inr []"
    by (simp add: fix_package_def)
  have b: "path_Base ''a/b'' = ''b''" "path_Base ''a/c'' = ''c''"
    by code_simp+
  have e: "lit_End (spec_Path self_import_spec) = 25"
    "ValuePos (spec_Path self_import_spec) = 20"
    "spec_Name self_import_spec = None" "Quote ?lib ''a/c'' = quoted ''a/c''"
    by code_simp+
  have calls: "fixGo_calls ?lib self_import_ast ''a/b'' ''a/c'' False
     = Inr [Insert 20 ''b '', Replace 20 25 (quoted ''a/c'')]"
    using fixGo_self_import [OF h2, of "''a/c''" self_import_ast "[]" "[]" False "[]"] h1 h3
    by (simp add: b e)
  have bytes: "fixGo ?lib self_import_src ''a/b'' ''a/c'' False
     = Inr (''package main'' @ [newline] @ ''import b '' @ quoted ''a/c'' @ [newline])"
    by code_simp
  from calls bytes show ?thesis by simp
qed

text \<open>
  C2. For an import spec whose unquoted path is the old module path, a slash and a rest,
  the only call \<open>fixGo\<close> makes for the spec is one \<open>Replace\<close> over the path literal,
  with the quoted new module path, a slash and the same rest: only the leading occurrence
  of the old path is exchanged, also when the old path occurs again in the rest. In the
  plan of the whole file (when the package clause did not end the program, see C5) the
  call stands between those of the imports before and after.
\<close>

theorem fixGo_subpackage_import:
  assumes "Unquote lib (Value (spec_Path spec)) = Some (srcMod @ ''/'' @ rest)"
  shows "fix_import lib srcMod dstMod spec
     = [Replace (ValuePos (spec_Path spec)) (lit_End (spec_Path spec))
          (Quote lib (dstMod @ ''/'' @ rest))]
    \<and> (file_Imports f = xs @ spec # ys \<and> fix_package lib f srcMod dstMod isRoot = Inr pk
       \<longrightarrow> fixGo_calls lib f srcMod dstMod isRoot =
           Inr (pk @ concat (map (fix_import lib srcMod dstMod) xs)
                @ [Replace (ValuePos (spec_Path spec)) (lit_End (spec_Path spec))
                     (Quote lib (dstMod @ ''/'' @ rest))]
                @ concat (map (fix_import lib srcMod dstMod) ys)))"
proof (intro conjI impI)
  show "fix_import lib srcMod dstMod spec
     = [Replace (ValuePos (spec_Path spec)) (lit_End (spec_Path spec))
          (Quote lib (dstMod @ ''/'' @ rest))]"
    by (rule fix_import_sub [OF assms])
next
  assume "file_Imports f = xs @ spec # ys \<and> fix_package lib f srcMod dstMod isRoot = Inr pk"
  then have "fixGo_calls lib f srcMod dstMod isRoot =
     Inr (pk @ concat (map (fix_import lib srcMod dstMod) xs) @ fix_import lib srcMod dstMod spec
          @ concat (map (fix_import lib srcMod dstMod) ys))"
    by (intro fixGo_calls_split) simp_all
  then show "fixGo_calls lib f srcMod dstMod isRoot =
     Inr (pk @ concat (map (fix_import lib srcMod dstMod) xs)
          @ [Replace (ValuePos (spec_Path spec)) (lit_End (spec_Path spec))
               (Quote lib (dstMod @ ''/'' @ rest))]
          @ concat (map (fix_import lib srcMod dstMod) ys))"
    by (simp add: fix_import_sub [OF assms])
qed

theorem fixGo_subpackage_import_witness:
  "fixGo_calls (golib_plain (parse_only sub_import_src sub_import_ast)) sub_import_ast
      ''a/b'' ''a/c'' False
     = Inr [Replace 20 31 (quoted ''a/c/x/a/b'')]
   \<and> fixGo (golib_plain (parse_only sub_import_src sub_import_ast)) sub_import_src
        ''a/b'' ''a/c'' False
     = Inr (''package main'' @ [newline] @ ''import '' @ quoted ''a/c/x/a/b'' @ [newline])"
proof -
  let ?lib = "golib_plain (parse_only sub_import_src sub_import_ast)"
  have h1: "file_Imports sub_import_ast = [] @ sub_import_spec # []"
    by (simp add: sub_import_ast_def)
  have h2: "Unquote ?lib (Value (spec_Path sub_import_spec)) = Some (''a/b'' @ ''/'' @ ''x/a/b'')"
    by code_simp
  have h3: "fix_package ?lib sub_import_ast ''a/b'' ''a/c'' False = Inr []"
    by (simp add: fix_package_def)
  have e: "lit_End (spec_Path sub_import_spec) = 31"
    "ValuePos (spec_Path sub_import_spec) = 20"
    "Quote ?lib ''a/c/x/a/b'' = quoted ''a/c/x/a/b''"
    by code_simp+
  have calls: "fixGo_calls ?lib sub_import_ast ''a/b'' ''a/c'' False
     = Inr [Replace 20 31 (quoted ''a/c/x/a/b'')]"
    using fixGo_subpackage_import [OF h2, of "''a/c''" sub_import_ast "[]" "[]" False "[]"]
      h1 h3
    by (simp add: e)
  have bytes: "fixGo ?lib sub_import_src ''a/b'' ''a/c'' False
     = Inr (''package main'' @ [newline] @ ''import '' @ quoted ''a/c/x/a/b'' @ [newline])"
    by code_simp
  from calls bytes show ?thesis by simp
qed

text \<open>
  C9. For an import spec whose path literal \<open>strconv.Unquote\<close> rejects, the loop makes no
  buffer call and raises no error: the plan of the whole file, and whether planning
  fails, are those of the file without that spec, so the other imports are processed as
  usual.
\<close>

theorem fixGo_unquote_error_skipped:
  assumes "Unquote lib (Value (spec_Path spec)) = None"
  shows "fix_import lib srcMod dstMod spec = []
    \<and> fixGo_calls lib (f\<lparr>file_Imports := xs @ spec # ys\<rparr>) srcMod dstMod isRoot
        = fixGo_calls lib (f\<lparr>file_Imports := xs @ ys\<rparr>) srcMod dstMod isRoot"
  using fix_import_unquote_error [OF assms, of srcMod dstMod]
  by (simp add: fixGo_calls_def fix_package_imports split: sum.splits)

theorem fixGo_unquote_error_skipped_witness:
  "Unquote (golib_plain (\<lambda>d. None)) (Value (spec_Path broken_spec)) = None
   \<and> fix_import (golib_plain (\<lambda>d. None)) ''a/b'' ''a/c'' broken_spec = []
   \<and> fixGo_calls (golib_plain (\<lambda>d. None))
        (self_import_ast\<lparr>file_Imports := [] @ broken_spec # [self_import_spec]\<rparr>)
        ''a/b'' ''a/c'' False
     = Inr [Insert 20 ''b '', Replace 20 25 (quoted ''a/c'')]"
proof -
  let ?lib = "golib_plain (\<lambda>d. None)"
  have h: "Unquote ?lib (Value (spec_Path broken_spec)) = None"
    by code_simp
  have r: "fixGo_calls ?lib (self_import_ast\<lparr>file_Imports := [] @ [self_import_spec]\<rparr>)
      ''a/b'' ''a/c'' False = Inr [Insert 20 ''b '', Replace 20 25 (quoted ''a/c'')]"
    by code_simp
  from fixGo_unquote_error_skipped [OF h, where srcMod = "''a/b''" and dstMod = "''a/c''"
      and f = self_import_ast and xs = "[]" and ys = "[self_import_spec]" and isRoot = False]
    h r
  show ?thesis by simp
qed

text \<open>
  C6. When the file parses, no import path that unquotes equals the old module path or
  starts with the old module path and a slash, and the file is not at the module root or
  its package name is neither the old base name nor the old base name with \<open>_test\<close>,
  then \<open>fixGo\<close> returns the bytes it was given.
\<close>

theorem fixGo_untouched:
  assumes "ParseFile lib data = Some f"
    and "\<forall>spec \<in> set (file_Imports f). \<forall>p. Unquote lib (Value (spec_Path spec)) = Some p
           \<longrightarrow> p \<noteq> srcMod \<and> \<not> HasPrefix p (srcMod @ ''/'')"
    and "isRoot \<longrightarrow> Name (file_Name f) \<noteq> path_Base srcMod
           \<and> Name (file_Name f) \<noteq> path_Base srcMod @ ''_test''"
  shows "fixGo lib data srcMod dstMod isRoot = Inr data"
proof -
  have imp: "fix_import lib srcMod dstMod spec = []" if "spec \<in> set (file_Imports f)" for spec
  proof (cases "Unquote lib (Value (spec_Path spec))")
    case None
    then show ?thesis by (rule fix_import_unquote_error)
  next
    case (Some p)
    with assms(2) that have "p \<noteq> srcMod" "\<not> HasPrefix p (srcMod @ ''/'')" by auto
    with Some show ?thesis by (rule fix_import_other)
  qed
  then have "concat (map (fix_import lib srcMod dstMod) (file_Imports f)) = []"
    by simp
  moreover have "fix_package lib f srcMod dstMod isRoot = Inr []"
    using assms(3) by (auto simp: fix_package_def Let_def)
  ultimately have "fixGo_calls lib f srcMod dstMod isRoot = Inr []"
    by (simp add: fixGo_calls_def)
  then show ?thesis
    using assms(1) by (simp add: fixGo_def Bytes_def NewBuffer_def)
qed

theorem fixGo_untouched_witness:
  "fixGo (golib_plain (parse_only fmt_import_src fmt_import_ast)) fmt_import_src
     ''a/main'' ''a/c'' False = Inr fmt_import_src
   \<and> fixGo (golib_plain (parse_only fmt_import_src fmt_import_ast)) fmt_import_src
     ''a/b'' ''a/c'' True = Inr fmt_import_src"
proof -
  let ?lib = "golib_plain (parse_only fmt_import_src fmt_import_ast)"
  have h1: "ParseFile ?lib fmt_import_src = Some fmt_import_ast"
    by (simp add: golib_plain_def parse_only_def)
  have u: "Unquote ?lib (quoted ''fmt'') = Some ''fmt''"
    by code_simp
  have np: "\<not> HasPrefix ''fmt'' (''a/b'' @ ''/'')" "\<not> HasPrefix ''fmt'' (''a/main'' @ ''/'')"
    by (simp_all add: HasPrefix_def)
  have h2: "\<forall>spec \<in> set (file_Imports fmt_import_ast).
      \<forall>p. Unquote ?lib (Value (spec_Path spec)) = Some p
        \<longrightarrow> p \<noteq> ''a/b'' \<and> \<not> HasPrefix p (''a/b'' @ ''/'')"
    using u np by (auto simp: fmt_import_ast_def)
  have h2': "\<forall>spec \<in> set (file_Imports fmt_import_ast).
      \<forall>p. Unquote ?lib (Value (spec_Path spec)) = Some p
        \<longrightarrow> p \<noteq> ''a/main'' \<and> \<not> HasPrefix p (''a/main'' @ ''/'')"
    using u np by (auto simp: fmt_import_ast_def)
  have b: "path_Base ''a/b'' = ''b''"
    by code_simp
  have h3: "True \<longrightarrow> Name (file_Name fmt_import_ast) \<noteq> path_Base ''a/b''
      \<and> Name (file_Name fmt_import_ast) \<noteq> path_Base ''a/b'' @ ''_test''"
    by (simp add: b fmt_import_ast_def main_ident_def)
  have h3': "False \<longrightarrow> Name (file_Name fmt_import_ast) \<noteq> path_Base ''a/main''
      \<and> Name (file_Name fmt_import_ast) \<noteq> path_Base ''a/main'' @ ''_test''"
    by simp
  from fixGo_untouched [OF h1 h2' h3'] fixGo_untouched [OF h1 h2 h3]
  show ?thesis by simp
qed

text \<open>
  C7. For a header as the parser reports it, the buffer calls of \<open>fixGo\<close> do not overlap:
  of two calls the one with the smaller start offset ends at or before the start of the
  other; and an \<open>Insert\<close> and a \<open>Replace\<close> with the same start offset are issued in this
  order.
\<close>

theorem fixGo_edits_ordered:
  assumes "source_order f" and "fixGo_calls lib f srcMod dstMod isRoot = Inr cs"
  shows "(\<forall>i<length cs. \<forall>j<length cs.
            call_start (cs ! i) < call_start (cs ! j) \<longrightarrow> call_end (cs ! i) \<le> call_start (cs ! j))
       \<and> (\<forall>i<length cs. \<forall>j<length cs. \<forall>p t e t'.
            cs ! i = Insert p t \<and> cs ! j = Replace p e t' \<longrightarrow> i < j)"
proof -
  from fixGo_calls_ordered [OF assms] have ord: "ordered_from 0 cs"
    and ppr: "\<forall>c \<in> set cs. proper c" by simp_all
  have a: "call_end (cs ! i) \<le> call_start (cs ! j)"
    if "i < length cs" "j < length cs" "call_start (cs ! i) < call_start (cs ! j)" for i j
  proof (rule ccontr)
    assume n: "\<not> call_end (cs ! i) \<le> call_start (cs ! j)"
    with ordered_from_nth [OF ord, of i j] that have "\<not> i < j" by auto
    moreover from that have "i \<noteq> j" by auto
    ultimately have "j < i" by simp
    from ordered_from_nth [OF ord this that(1)]
    have "call_end (cs ! j) \<le> call_start (cs ! i)" .
    moreover from ordered_from_span [OF ord] that(2)
    have "call_start (cs ! j) \<le> call_end (cs ! j)" by simp
    ultimately show False using that(3) by simp
  qed
  have b: "i < j"
    if "i < length cs" "j < length cs" "cs ! i = Insert p t" "cs ! j = Replace p e t'"
    for i j p t e t'
  proof (rule ccontr)
    assume "\<not> i < j"
    moreover from that have "i \<noteq> j" by auto
    ultimately have "j < i" by simp
    from ordered_from_nth [OF ord this that(1)] that have "e \<le> p" by simp
    moreover from ppr that(2) have "proper (cs ! j)" by simp
    with that have "p < e" by simp
    ultimately show False by simp
  qed
  from a b show ?thesis by blast
qed

theorem fixGo_edits_ordered_witness:
  "source_order test_pkg_ast
   \<and> fixGo_calls (golib_plain (\<lambda>d. None)) test_pkg_ast ''a/b'' ''a/c'' True
       = Inr [Replace 8 14 ''c_test'', Insert 22 ''b '', Replace 22 27 (quoted ''a/c'')]
   \<and> call_end (Replace 8 14 ''c_test'') \<le> call_start (Insert 22 ''b '')
   \<and> call_end (Insert 22 ''b '') \<le> call_start (Replace 22 27 (quoted ''a/c''))"
proof -
  let ?lib = "golib_plain (\<lambda>d. None)"
  let ?cs = "[Replace 8 14 ''c_test'', Insert 22 ''b '', Replace 22 27 (quoted ''a/c'')]"
  have h1: "source_order test_pkg_ast"
    by code_simp
  have h2: "fixGo_calls ?lib test_pkg_ast ''a/b'' ''a/c'' True = Inr ?cs"
    by code_simp
  note t = fixGo_edits_ordered [OF h1 h2]
  from t have "call_start (?cs ! 0) < call_start (?cs ! 1)
      \<longrightarrow> call_end (?cs ! 0) \<le> call_start (?cs ! 1)"
    by simp
  then have a: "call_end (Replace 8 14 ''c_test'') \<le> call_start (Insert 22 ''b '')"
    by simp
  have b: "call_end (Insert 22 ''b '') \<le> call_start (Replace 22 27 (quoted ''a/c''))"
    by simp
  from h1 h2 a b show ?thesis by simp
qed

text \<open>
  C5, as stated, fails where the new name is no identifier: for the root file
  \<open>package b\<close>, old path \<open>example.com/b\<close> and new path \<open>example.com/my-app\<close> the
  program ends with the message that \<open>my-app\<close> is an invalid package name.
\<close>

theorem package_rename_counterexample:
  "fixGo (golib_plain (parse_only pkg_b_src pkg_b_ast)) pkg_b_src
     ''example.com/b'' ''example.com/my-app'' True
   = Inl (InvalidPackageName ''b'' ''my-app'')"
  by code_simp

text \<open>
  C5, amended. For a file at the module root whose package name is the old base name,
  and when the new base name is an identifier, the first buffer call of \<open>fixGo\<close> replaces
  the package name by the new base name; likewise with \<open>_test\<close> appended to both names.
  When the new name is no identifier, \<open>fixGo\<close> ends the program and makes no call.
  For a file that is not at the module root, or whose package name is neither of the two,
  no call is made for the package clause: all calls are those of the imports, and for a
  header as the parser reports it they start at or after the end of the package name.
\<close>

theorem fixGo_package_clause:
  "(isRoot \<and> (Name (file_Name f) = path_Base srcMod
               \<or> Name (file_Name f) = path_Base srcMod @ ''_test'')
        \<and> \<not> IsIdentifier lib
              (path_Base dstMod @ TrimPrefix (Name (file_Name f)) (path_Base srcMod))
      \<longrightarrow> fixGo_calls lib f srcMod dstMod isRoot
            = Inl (InvalidPackageName (Name (file_Name f))
                     (path_Base dstMod @ TrimPrefix (Name (file_Name f)) (path_Base srcMod))))
   \<and> (isRoot \<and> Name (file_Name f) = path_Base srcMod \<and> IsIdentifier lib (path_Base dstMod)
      \<longrightarrow> fixGo_calls lib f srcMod dstMod isRoot
            = Inr (Replace (NamePos (file_Name f)) (ident_End (file_Name f)) (path_Base dstMod)
                   # concat (map (fix_import lib srcMod dstMod) (file_Imports f))))
   \<and> (isRoot \<and> Name (file_Name f) = path_Base srcMod @ ''_test''
        \<and> IsIdentifier lib (path_Base dstMod @ ''_test'')
      \<longrightarrow> fixGo_calls lib f srcMod dstMod isRoot
            = Inr (Replace (NamePos (file_Name f)) (ident_End (file_Name f))
                     (path_Base dstMod @ ''_test'')
                   # concat (map (fix_import lib srcMod dstMod) (file_Imports f))))
   \<and> (\<not> isRoot \<or> (Name (file_Name f) \<noteq> path_Base srcMod
                    \<and> Name (file_Name f) \<noteq> path_Base srcMod @ ''_test'')
      \<longrightarrow> fixGo_calls lib f srcMod dstMod isRoot
            = Inr (concat (map (fix_import lib srcMod dstMod) (file_Imports f)))
          \<and> (source_order f \<longrightarrow>
               (\<forall>c \<in> set (concat (map (fix_import lib srcMod dstMod) (file_Imports f))).
                  ident_End (file_Name f) \<le> call_start c)))"
proof (intro conjI impI)
  assume "isRoot \<and> (Name (file_Name f) = path_Base srcMod
               \<or> Name (file_Name f) = path_Base srcMod @ ''_test'')
        \<and> \<not> IsIdentifier lib
              (path_Base dstMod @ TrimPrefix (Name (file_Name f)) (path_Base srcMod))"
  then show "fixGo_calls lib f srcMod dstMod isRoot
      = Inl (InvalidPackageName (Name (file_Name f))
               (path_Base dstMod @ TrimPrefix (Name (file_Name f)) (path_Base srcMod)))"
    by (simp add: fixGo_calls_def fix_package_def Let_def)
next
  assume "isRoot \<and> Name (file_Name f) = path_Base srcMod \<and> IsIdentifier lib (path_Base dstMod)"
  then show "fixGo_calls lib f srcMod dstMod isRoot
      = Inr (Replace (NamePos (file_Name f)) (ident_End (file_Name f)) (path_Base dstMod)
             # concat (map (fix_import lib srcMod dstMod) (file_Imports f)))"
    by (simp add: fixGo_calls_def fix_package_def Let_def TrimPrefix_def HasPrefix_def)
next
  assume "isRoot \<and> Name (file_Name f) = path_Base srcMod @ ''_test''
      \<and> IsIdentifier lib (path_Base dstMod @ ''_test'')"
  then show "fixGo_calls lib f srcMod dstMod isRoot
      = Inr (Replace (NamePos (file_Name f)) (ident_End (file_Name f))
               (path_Base dstMod @ ''_test'')
             # concat (map (fix_import lib srcMod dstMod) (file_Imports f)))"
    by (simp add: fixGo_calls_def fix_package_def Let_def TrimPrefix_def HasPrefix_def)
next
  assume "\<not> isRoot \<or> (Name (file_Name f) \<noteq> path_Base srcMod
      \<and> Name (file_Name f) \<noteq> path_Base srcMod @ ''_test'')"
  then show "fixGo_calls lib f srcMod dstMod isRoot
      = Inr (concat (map (fix_import lib srcMod dstMod) (file_Imports f)))"
    by (auto simp: fixGo_calls_def fix_package_def Let_def)
next
  assume "source_order f"
  then have "imports_from (ident_End (file_Name f)) (file_Imports f)"
    by (simp add: source_order_def)
  from imports_ordered [OF this, of lib srcMod dstMod]
  have "ordered_from (ident_End (file_Name f))
      (concat (map (fix_import lib srcMod dstMod) (file_Imports f)))"
    by simp
  then show "\<forall>c \<in> set (concat (map (fix_import lib srcMod dstMod) (file_Imports f))).
      ident_End (file_Name f) \<le> call_start c"
    by (blast intro: ordered_from_lower)
qed

theorem fixGo_package_clause_witness:
  "fixGo_calls (golib_plain (\<lambda>d. None)) pkg_b_ast ''a/b'' ''a/c'' True = Inr [Replace 8 9 ''c'']
   \<and> fixGo_calls (golib_plain (\<lambda>d. None)) test_pkg_ast ''a/b'' ''a/c'' True
       = Inr [Replace 8 14 ''c_test'', Insert 22 ''b '', Replace 22 27 (quoted ''a/c'')]
   \<and> fixGo_calls (golib_plain (\<lambda>d. None)) test_pkg_ast ''a/b'' ''a/c'' False
       = Inr [Insert 22 ''b '', Replace 22 27 (quoted ''a/c'')]
   \<and> ident_End (file_Name test_pkg_ast) \<le> call_start (Insert 22 ''b '')
   \<and> fixGo (golib_plain (parse_only pkg_b_src pkg_b_ast)) pkg_b_src ''a/b'' ''a/c'' True
       = Inr (''package c'' @ [newline])
   \<and> fixGo (golib_plain (parse_only test_pkg_src test_pkg_ast)) test_pkg_src ''a/b'' ''a/c'' True
       = Inr (''package c_test'' @ [newline] @ ''import b '' @ quoted ''a/c'' @ [newline])"
proof -
  let ?lib = "golib_plain (\<lambda>d. None)"
  have b: "path_Base ''a/b'' = ''b''" "path_Base ''a/c'' = ''c''"
    by code_simp+
  have i: "IsIdentifier ?lib ''c''" "IsIdentifier ?lib ''c_test''"
    by code_simp+
  have imp: "concat (map (fix_import ?lib ''a/b'' ''a/c'') (file_Imports test_pkg_ast))
      = [Insert 22 ''b '', Replace 22 27 (quoted ''a/c'')]"
    "concat (map (fix_import ?lib ''a/b'' ''a/c'') (file_Imports pkg_b_ast)) = []"
    by code_simp+
  have so: "source_order test_pkg_ast"
    by code_simp
  have e: "ident_End (file_Name pkg_b_ast) = 9" "NamePos (file_Name pkg_b_ast) = 8"
    "ident_End (file_Name test_pkg_ast) = 14" "NamePos (file_Name test_pkg_ast) = 8"
    "Name (file_Name pkg_b_ast) = ''b''" "Name (file_Name test_pkg_ast) = ''b_test''"
    by code_simp+
  from fixGo_package_clause [of True pkg_b_ast "''a/b''" ?lib "''a/c''"]
  have c1: "fixGo_calls ?lib pkg_b_ast ''a/b'' ''a/c'' True = Inr [Replace 8 9 ''c'']"
    by (simp add: b i imp e)
  from fixGo_package_clause [of True test_pkg_ast "''a/b''" ?lib "''a/c''"]
  have c2: "fixGo_calls ?lib test_pkg_ast ''a/b'' ''a/c'' True
      = Inr [Replace 8 14 ''c_test'', Insert 22 ''b '', Replace 22 27 (quoted ''a/c'')]"
    by (simp add: b i imp e)
  from fixGo_package_clause [of False test_pkg_ast "''a/b''" ?lib "''a/c''"] so
  have c3: "fixGo_calls ?lib test_pkg_ast ''a/b'' ''a/c'' False
      = Inr [Insert 22 ''b '', Replace 22 27 (quoted ''a/c'')]"
    and c4: "ident_End (file_Name test_pkg_ast) \<le> call_start (Insert 22 ''b '')"
    by (simp_all add: imp)
  have b1: "fixGo (golib_plain (parse_only pkg_b_src pkg_b_ast)) pkg_b_src ''a/b'' ''a/c'' True
       = Inr (''package c'' @ [newline])"
    by code_simp
  have b2: "fixGo (golib_plain (parse_only test_pkg_src test_pkg_ast)) test_pkg_src
       ''a/b'' ''a/c'' True
       = Inr (''package c_test'' @ [newline] @ ''import b '' @ quoted ''a/c'' @ [newline])"
    by code_simp
  from c1 c2 c3 c4 b1 b2 show ?thesis by simp
qed

text \<open>
  C3, as stated, fails for an import written as a raw string literal: with the module
  path \<open>example.com/b\<close> as old and new identity, the literal between back quotes is
  replaced by the literal between double quotes, and the bytes returned differ from the
  bytes given.
\<close>

theorem fixGo_same_identity_counterexample:
  "fixGo (golib_plain (parse_only raw_import_src raw_import_ast)) raw_import_src
     ''example.com/b'' ''example.com/b'' False
   = Inr (''package main'' @ [newline] @ ''import '' @ quoted ''example.com/b'' @ [newline])
   \<and> ''package main'' @ [newline] @ ''import '' @ quoted ''example.com/b'' @ [newline]
       \<noteq> raw_import_src"
  by code_simp

text \<open>
  C3, amended. When the file parses, its header is as the parser reports it, and every
  import literal whose path is the module path, or starts with the module path and a
  slash, is written exactly as \<open>strconv.Quote\<close> prints that path, then \<open>fixGo\<close> with
  the same module path as old and new identity returns the bytes it was given, at the
  module root and elsewhere.
\<close>

theorem fixGo_same_identity:
  assumes "ParseFile lib data = Some f"
    and "source_order f"
    and "located data f"
    and "IsIdentifier lib (Name (file_Name f))"
    and "\<forall>spec \<in> set (file_Imports f). \<forall>p.
           Unquote lib (Value (spec_Path spec)) = Some p \<and> (p = m \<or> HasPrefix p (m @ ''/''))
           \<longrightarrow> Quote lib p = Value (spec_Path spec)"
  shows "fixGo lib data m m isRoot = Inr data"
proof -
  from assms(3) have name: "text_at data (NamePos (file_Name f)) (Name (file_Name f))"
    and lits: "\<forall>s \<in> set (file_Imports f). text_at data (ValuePos (spec_Path s)) (Value (spec_Path s))"
    by (simp_all add: located_def list_all_iff)
  from fix_package_same [OF name assms(4), of m isRoot]
  obtain pk where pk: "fix_package lib f m m isRoot = Inr pk"
    and pks: "\<forall>c \<in> set pk. same_text data c" by blast
  let ?cs = "pk @ concat (map (fix_import lib m m) (file_Imports f))"
  have calls: "fixGo_calls lib f m m isRoot = Inr ?cs"
    using pk by (simp add: fixGo_calls_def)
  have "\<forall>c \<in> set (fix_import lib m m s). same_text data c" if "s \<in> set (file_Imports f)" for s
    using that lits assms(5) by (intro fix_import_same) auto
  with pks have same: "\<forall>c \<in> set ?cs. same_text data c" by auto
  from fixGo_calls_ordered [OF assms(2) calls] have ord: "ordered_from 0 ?cs" by simp
  have "fixGo lib data m m isRoot = Bytes (foldl run_call (NewBuffer data) ?cs)"
    using assms(1) calls by (simp add: fixGo_def del: foldl_append)
  also have "\<dots> = materialize data 0 (sort_key edit_key (map edit_of ?cs))"
    by (rule Bytes_calls)
  also have "\<dots> = materialize data 0 (map edit_of ?cs)"
    by (simp only: sort_ordered [OF ord])
  also have "\<dots> = Inr (drop 0 data)"
    by (rule materialize_same [OF ord same])
  finally show ?thesis by simp
qed

theorem fixGo_same_identity_witness:
  "fixGo (golib_plain (parse_only test_pkg_src test_pkg_ast)) test_pkg_src ''a/b'' ''a/b'' True
     = Inr test_pkg_src"
proof -
  let ?lib = "golib_plain (parse_only test_pkg_src test_pkg_ast)"
  have h1: "ParseFile ?lib test_pkg_src = Some test_pkg_ast"
    by (simp add: golib_plain_def parse_only_def)
  have h2: "source_order test_pkg_ast"
    by code_simp
  have h3: "located test_pkg_src test_pkg_ast"
    by code_simp
  have h4: "IsIdentifier ?lib (Name (file_Name test_pkg_ast))"
    by code_simp
  have u: "Unquote ?lib (quoted ''a/b'') = Some ''a/b''" "Quote ?lib ''a/b'' = quoted ''a/b''"
    by code_simp+
  have h5: "\<forall>spec \<in> set (file_Imports test_pkg_ast). \<forall>p.
      Unquote ?lib (Value (spec_Path spec)) = Some p \<and> (p = ''a/b'' \<or> HasPrefix p (''a/b'' @ ''/''))
      \<longrightarrow> Quote ?lib p = Value (spec_Path spec)"
    using u by (auto simp: test_pkg_ast_def)
  from fixGo_same_identity [OF h1 h2 h3 h4 h5] show ?thesis .
qed

text \<open>
  C8, as stated, fails in one run: with more than three arguments the usage text is
  printed first, and when printing it fails the function returns at once, before the
  module paths are checked; the run with an invalid source module then ends without a
  validation failure.
\<close>

theorem initProject_validation_counterexample:
  "\<not> CheckPath (demo_env True ([], True) None []) (arg_src [''bad path'', ''example.com/c'', ''d'', ''e''])
   \<and> initProject (demo_env True ([], True) None []) [''bad path'', ''example.com/c'', ''d'', ''e'']
       = ([EvUsage], Some UsageError)"
  by code_simp

text \<open>
  C8, amended. The command is registered with \<open>cobra.MinimumNArgs(1)\<close>, so there is
  at least one argument. In every run in which the source or the destination module path fails
  \<open>module.CheckPath\<close>, the function ends before any directory is read, any module is
  fetched and any file is read or written: the only action it may have performed is
  printing the usage text. It ends with the validation failure of the source or of the
  destination module, except when more than three arguments were given and printing
  the usage text failed, where it returns before validating.
\<close>

theorem initProject_validates_first:
  assumes "args \<noteq> []"
    and "\<not> CheckPath env (arg_src args) \<or> \<not> CheckPath env (arg_dst args)"
  shows "list_all (\<lambda>e. \<not> is_io e) (fst (initProject env args))
    \<and> (snd (initProject env args) = Some InvalidSourceModule
       \<or> snd (initProject env args) = Some InvalidDestinationModule
       \<or> (3 < length args \<and> usage_fails env \<and> snd (initProject env args) = Some UsageError))"
proof -
  have u: "list_all (\<lambda>e. \<not> is_io e) (usage_events args)"
    by (simp add: usage_events_def)
  from initProject_unchecked [OF assms] u show ?thesis
    by auto
qed

theorem initProject_validates_first_witness:
  "\<not> CheckPath (demo_env False ([], True) (Some ''/cache'') demo_walk) (arg_src [''bad path''])
   \<and> list_all (\<lambda>e. \<not> is_io e)
        (fst (initProject (demo_env False ([], True) (Some ''/cache'') demo_walk) [''bad path'']))
   \<and> initProject (demo_env False ([], True) (Some ''/cache'') demo_walk) [''bad path'']
       = ([], Some InvalidSourceModule)
   \<and> initProject (demo_env False ([], True) (Some ''/cache'') demo_walk)
        [''example.com/b'', ''bad path'']
       = ([], Some InvalidDestinationModule)"
proof -
  let ?env = "demo_env False ([], True) (Some ''/cache'') demo_walk"
  have h1: "[''bad path''] \<noteq> []"
    by simp
  have n: "\<not> CheckPath ?env (arg_src [''bad path''])"
    by code_simp
  then have h2: "\<not> CheckPath ?env (arg_src [''bad path''])
      \<or> \<not> CheckPath ?env (arg_dst [''bad path''])"
    by simp
  from initProject_validates_first [OF h1 h2]
  have a: "list_all (\<lambda>e. \<not> is_io e) (fst (initProject ?env [''bad path'']))"
    by simp
  have b: "initProject ?env [''bad path''] = ([], Some InvalidSourceModule)"
    by code_simp
  have c: "initProject ?env [''example.com/b'', ''bad path''] = ([], Some InvalidDestinationModule)"
    by code_simp
  from n a b c show ?thesis by simp
qed



end
